theory Spec2Isabelle
  imports Main "HOL-Library.Word"
begin

unbundle bit_operations_syntax

section \<open>Data model of myfind\<close>

text \<open>
  The development embeds the final draft of \<^verbatim>\<open>myfind.c\<close> (the one with
  \<^verbatim>\<open>struct Args\<close>, \<^verbatim>\<open>ParseCommandLineArgs\<close>, \<^verbatim>\<open>SearchFile\<close> and
  \<^verbatim>\<open>SearchDirectory\<close>) and, for comparison, the directory walk of the first draft
  (\<^verbatim>\<open>do_file\<close>/\<^verbatim>\<open>do_dir\<close> of \<^verbatim>\<open>myfind/myfind.c\<close>).

  C strings are character lists without a NUL; their lengths are taken to fit an
  \<^verbatim>\<open>int\<close>, as \<^verbatim>\<open>CombinePath\<close> assumes when it stores \<^verbatim>\<open>strlen\<close> in one.
  Allocation is taken to succeed: where it fails the source leaves the process
  with \<^verbatim>\<open>exit(-1)\<close>.
\<close>

type_synonym errno = nat

text \<open>\<^verbatim>\<open>enum FileTypes\<close>: a set of bit flags held in an \<^verbatim>\<open>int\<close>-sized value.\<close>

type_synonym FileTypes = "32 word"

definition None_FileTypes :: FileTypes where
  "None_FileTypes = 0"

definition BlockSpecialFile :: FileTypes where
  "BlockSpecialFile = push_bit 0 1"

definition CharacterSpecialFile :: FileTypes where
  "CharacterSpecialFile = push_bit 1 1"

definition Directory :: FileTypes where
  "Directory = push_bit 2 1"

definition NamedPipe :: FileTypes where
  "NamedPipe = push_bit 3 1"

definition RegularFile :: FileTypes where
  "RegularFile = push_bit 4 1"

definition SymbolicLink :: FileTypes where
  "SymbolicLink = push_bit 5 1"

definition Socket :: FileTypes where
  "Socket = push_bit 6 1"

text \<open>
  \<^verbatim>\<open>struct Args\<close>. The pointers \<^verbatim>\<open>searchPath\<close>, \<^verbatim>\<open>namePattern\<close> and
  \<^verbatim>\<open>pathPattern\<close> are \<^verbatim>\<open>NULL\<close> or a string; \<^verbatim>\<open>userID\<close> is an \<^verbatim>\<open>int\<close>.
\<close>

record Args =
  searchPath :: "string option"
  printInExtendedFormat :: bool
  filterByFileType :: bool
  fileTypes :: FileTypes
  filterByUserID :: bool
  userID :: "32 word"
  filterForNoUser :: bool
  filterForNamePattern :: bool
  namePattern :: "string option"
  filterForPathPattern :: bool
  pathPattern :: "string option"

text \<open>The zeroed structure \<^verbatim>\<open>calloc(1, sizeof(struct Args))\<close> that \<^verbatim>\<open>main\<close> starts from.\<close>

definition calloc_Args :: Args where
  "calloc_Args =
     \<lparr>searchPath = None, printInExtendedFormat = False,
      filterByFileType = False, fileTypes = 0,
      filterByUserID = False, userID = 0,
      filterForNoUser = False,
      filterForNamePattern = False, namePattern = None,
      filterForPathPattern = False, pathPattern = None\<rparr>"

text \<open>
  The fields of \<^verbatim>\<open>struct stat\<close> that the program reads: \<^verbatim>\<open>st_mode\<close> and
  \<^verbatim>\<open>st_uid\<close>, both unsigned 32-bit values.
\<close>

record stat =
  st_mode :: "32 word"
  st_uid :: "32 word"

text \<open>
  The file type macros of \<^verbatim>\<open><sys/stat.h>\<close>, with the values of the Linux headers:
  the type is the field \<^verbatim>\<open>st_mode & S_IFMT\<close>, \<^verbatim>\<open>S_IFMT = 0170000\<close>.
\<close>

definition S_IFMT :: "32 word" where
  "S_IFMT = 0xF000"

definition S_ISBLK :: "32 word \<Rightarrow> bool" where
  "S_ISBLK m = (m AND S_IFMT = 0x6000)"

definition S_ISCHR :: "32 word \<Rightarrow> bool" where
  "S_ISCHR m = (m AND S_IFMT = 0x2000)"

definition S_ISDIR :: "32 word \<Rightarrow> bool" where
  "S_ISDIR m = (m AND S_IFMT = 0x4000)"

definition S_ISFIFO :: "32 word \<Rightarrow> bool" where
  "S_ISFIFO m = (m AND S_IFMT = 0x1000)"

definition S_ISREG :: "32 word \<Rightarrow> bool" where
  "S_ISREG m = (m AND S_IFMT = 0x8000)"

definition S_ISLNK :: "32 word \<Rightarrow> bool" where
  "S_ISLNK m = (m AND S_IFMT = 0xA000)"

definition S_ISSOCK :: "32 word \<Rightarrow> bool" where
  "S_ISSOCK m = (m AND S_IFMT = 0xC000)"

section \<open>The path joiner\<close>

text \<open>
  \<^verbatim>\<open>CombinePath\<close>: the three early returns for empty operands, then the three
  branches on the slashes at the junction. \<^verbatim>\<open>strncat(combined, path1, path1Len - 1)\<close>
  copies \<^verbatim>\<open>path1\<close> without its last character.
\<close>

definition CombinePath :: "string \<Rightarrow> string \<Rightarrow> string" where
  "CombinePath path1 path2 =
     (let path1Len = length path1; path2Len = length path2 in
      if path1Len = 0 \<and> path2Len = 0 then []
      else if path1Len = 0 then path2
      else if path2Len = 0 then path1
      else
        let path1HasTrailingSlash = (path1Len > 0 \<and> path1 ! (path1Len - 1) = CHR ''/'');
            path2HasLeadingSlash = (path2Len > 0 \<and> path2 ! 0 = CHR ''/'')
        in if path1HasTrailingSlash \<and> path2HasLeadingSlash
             then take (path1Len - 1) path1 @ path2
           else if path1HasTrailingSlash \<or> path2HasLeadingSlash
             then path1 @ path2
           else path1 @ ''/'' @ path2)"

section \<open>The predicate evaluator\<close>

text \<open>
  \<^verbatim>\<open>ShouldPrintFileInformation\<close>: an \<^verbatim>\<open>if\<close>/\<^verbatim>\<open>else if\<close> chain in which every
  branch returns. The branches of the no-owner, name and path filters are the
  unfinished ones of the source: \<^verbatim>\<open>return false;\<close> followed by a dead
  \<^verbatim>\<open>return true;\<close>. The comparison \<^verbatim>\<open>st_uid == userID\<close> converts the \<^verbatim>\<open>int\<close> to
  unsigned, which keeps its 32 bits.
\<close>

definition ShouldPrintFileInformation :: "string \<Rightarrow> stat \<Rightarrow> Args \<Rightarrow> bool" where
  "ShouldPrintFileInformation filePath fileInformation args =
     (if filterByFileType args then
        (S_ISBLK (st_mode fileInformation) \<and> fileTypes args AND BlockSpecialFile \<noteq> 0) \<or>
        (S_ISCHR (st_mode fileInformation) \<and> fileTypes args AND CharacterSpecialFile \<noteq> 0) \<or>
        (S_ISDIR (st_mode fileInformation) \<and> fileTypes args AND Directory \<noteq> 0) \<or>
        (S_ISFIFO (st_mode fileInformation) \<and> fileTypes args AND NamedPipe \<noteq> 0) \<or>
        (S_ISREG (st_mode fileInformation) \<and> fileTypes args AND RegularFile \<noteq> 0) \<or>
        (S_ISLNK (st_mode fileInformation) \<and> fileTypes args AND SymbolicLink \<noteq> 0) \<or>
        (S_ISSOCK (st_mode fileInformation) \<and> fileTypes args AND Socket \<noteq> 0)
      else if filterByUserID args then st_uid fileInformation = userID args
      else if filterForNoUser args then False
      else if filterForNamePattern args then False
      else if filterForPathPattern args then False
      else True)"

section \<open>Command-line parsing\<close>

text \<open>
  \<^verbatim>\<open>ParseFileTypes\<close>: the flags start at \<^verbatim>\<open>None\<close> and every character ORs one
  in; the first character outside \<^verbatim>\<open>bcdpfls\<close> makes the function return false.
\<close>

fun ParseFileTypes_loop :: "string \<Rightarrow> FileTypes \<Rightarrow> FileTypes option" where
  "ParseFileTypes_loop [] flags = Some flags"
| "ParseFileTypes_loop (c # cs) flags =
     (if c = CHR ''b'' then ParseFileTypes_loop cs (flags OR BlockSpecialFile)
      else if c = CHR ''c'' then ParseFileTypes_loop cs (flags OR CharacterSpecialFile)
      else if c = CHR ''d'' then ParseFileTypes_loop cs (flags OR Directory)
      else if c = CHR ''p'' then ParseFileTypes_loop cs (flags OR NamedPipe)
      else if c = CHR ''f'' then ParseFileTypes_loop cs (flags OR RegularFile)
      else if c = CHR ''l'' then ParseFileTypes_loop cs (flags OR SymbolicLink)
      else if c = CHR ''s'' then ParseFileTypes_loop cs (flags OR Socket)
      else None)"

definition ParseFileTypes :: "string \<Rightarrow> FileTypes option" where
  "ParseFileTypes fileTypeChars = ParseFileTypes_loop fileTypeChars None_FileTypes"

text \<open>
  The ways \<^verbatim>\<open>ParseCommandLineArgs\<close> returns false, one per diagnostic it prints.
\<close>

datatype ArgError =
    TypeWithoutOperand
  | InvalidFileTypes string
  | UserWithoutOperand
  | UserNotFound string
  | NameWithoutOperand
  | PathWithoutOperand
  | UnknownArgument nat string

text \<open>
  The bodies of \<^verbatim>\<open>ConvertToInteger\<close> and \<^verbatim>\<open>QueryUserID\<close> are still to be written
  in the source, so the parser takes them as parameters: each maps a string to the
  user ID it stores, or to nothing when it returns false.

  The \<^verbatim>\<open>while (argv[i] != NULL)\<close> loop of \<^verbatim>\<open>ParseCommandLineArgs\<close>. The vector
  \<^verbatim>\<open>argv\<close> is the list of its strings, the terminating \<^verbatim>\<open>NULL\<close> sits at index
  \<^verbatim>\<open>length argv\<close>. An action with an operand reads \<^verbatim>\<open>argv[i + 1]\<close> and skips it.
\<close>

function ParseCommandLineArgs_loop ::
  "(string \<rightharpoonup> 32 word) \<Rightarrow> (string \<rightharpoonup> 32 word) \<Rightarrow> string list \<Rightarrow> nat \<Rightarrow> Args \<Rightarrow> ArgError + Args"
where
  "ParseCommandLineArgs_loop ConvertToInteger QueryUserID argv i args =
     (if length argv \<le> i then Inr args
      else if argv ! i = ''-print'' then
        ParseCommandLineArgs_loop ConvertToInteger QueryUserID argv (i + 1) args
      else if argv ! i = ''-ls'' then
        ParseCommandLineArgs_loop ConvertToInteger QueryUserID argv (i + 1)
          (args\<lparr>printInExtendedFormat := True\<rparr>)
      else if argv ! i = ''-type'' then
        (if length argv \<le> i + 1 then Inl TypeWithoutOperand
         else case ParseFileTypes (argv ! (i + 1)) of
           None \<Rightarrow> Inl (InvalidFileTypes (argv ! (i + 1)))
         | Some parsed \<Rightarrow>
             ParseCommandLineArgs_loop ConvertToInteger QueryUserID argv (i + 2)
               (args\<lparr>fileTypes := parsed, filterByFileType := True\<rparr>))
      else if argv ! i = ''-user'' then
        (if length argv \<le> i + 1 then Inl UserWithoutOperand
         else case ConvertToInteger (argv ! (i + 1)) of
           Some uid \<Rightarrow>
             ParseCommandLineArgs_loop ConvertToInteger QueryUserID argv (i + 2)
               (args\<lparr>userID := uid, filterByUserID := True\<rparr>)
         | None \<Rightarrow>
             (case QueryUserID (argv ! (i + 1)) of
                Some uid \<Rightarrow>
                  ParseCommandLineArgs_loop ConvertToInteger QueryUserID argv (i + 2)
                    (args\<lparr>userID := uid, filterByUserID := True\<rparr>)
              | None \<Rightarrow> Inl (UserNotFound (argv ! (i + 1)))))
      else if argv ! i = ''-nouser'' then
        ParseCommandLineArgs_loop ConvertToInteger QueryUserID argv (i + 1)
          (args\<lparr>filterForNoUser := True\<rparr>)
      else if argv ! i = ''-name'' then
        (if length argv \<le> i + 1 then Inl NameWithoutOperand
         else ParseCommandLineArgs_loop ConvertToInteger QueryUserID argv (i + 2)
                (args\<lparr>namePattern := Some (argv ! (i + 1)), filterForNamePattern := True\<rparr>))
      else if argv ! i = ''-path'' then
        (if length argv \<le> i + 1 then Inl PathWithoutOperand
         else ParseCommandLineArgs_loop ConvertToInteger QueryUserID argv (i + 2)
                (args\<lparr>pathPattern := Some (argv ! (i + 1)), filterForPathPattern := True\<rparr>))
      else if i = 1 then
        ParseCommandLineArgs_loop ConvertToInteger QueryUserID argv (i + 1)
          (args\<lparr>searchPath := Some (argv ! i)\<rparr>)
      else Inl (UnknownArgument i (argv ! i)))"
  by pat_completeness auto
termination
  by (relation "measure (\<lambda>(c, q, argv, i, args). length argv - i)") auto

declare ParseCommandLineArgs_loop.simps [simp del]

text \<open>
  \<^verbatim>\<open>ParseCommandLineArgs\<close> starts at index 1, after the executable path
  \<^verbatim>\<open>argv[0]\<close>, which every vector is taken to hold.
\<close>

definition ParseCommandLineArgs ::
  "(string \<rightharpoonup> 32 word) \<Rightarrow> (string \<rightharpoonup> 32 word) \<Rightarrow> string list \<Rightarrow> Args \<Rightarrow> ArgError + Args"
where
  "ParseCommandLineArgs ConvertToInteger QueryUserID argv args =
     ParseCommandLineArgs_loop ConvertToInteger QueryUserID argv 1 args"

text \<open>The strings the parser recognises as actions.\<close>

definition actions :: "string set" where
  "actions = {''-print'', ''-ls'', ''-type'', ''-user'', ''-nouser'', ''-name'', ''-path''}"

text \<open>The actions that read the argument after them as their operand.\<close>

definition operand_actions :: "string set" where
  "operand_actions = {''-type'', ''-user'', ''-name'', ''-path''}"

section \<open>The file system and the trace of a walk\<close>

text \<open>
  What the walk does to the outside world, in order: the system calls that touch a
  directory stream, the line it prints for a match, and its diagnostics on
  \<^verbatim>\<open>stderr\<close>. \<open>Lstat p\<close> is the call \<^verbatim>\<open>lstat(p, ...)\<close> that starts the visit of
  \<open>p\<close>; \<open>Opendir p ok\<close> is the call \<^verbatim>\<open>opendir(p)\<close>, with \<open>ok\<close> when it returned a
  stream; \<open>Readdir p\<close> is one \<^verbatim>\<open>readdir\<close> on that stream and \<open>Closedir p\<close> the
  \<^verbatim>\<open>closedir\<close> that ends it (the stream is gone after the call, whatever it
  returns). A diagnostic names the failed operation, the path and \<^verbatim>\<open>errno\<close>.
\<close>

datatype operation = OpLstat | OpOpendir | OpReaddir | OpClosedir

datatype event =
    Lstat string
  | Opendir string bool
  | Readdir string
  | Closedir string
  | Stdout string
  | Stderr operation string errno

text \<open>
  The file system as the walk meets it, a finite tree of answers. A node holds what
  \<^verbatim>\<open>lstat\<close> returns for its path (an \<^verbatim>\<open>errno\<close> or the \<^verbatim>\<open>struct stat\<close> of the node
  itself, a link is not followed) and what \<^verbatim>\<open>opendir\<close> returns for it. A stream
  holds the entries \<^verbatim>\<open>readdir\<close> returns before its first \<^verbatim>\<open>NULL\<close>, the \<^verbatim>\<open>errno\<close>
  of that \<^verbatim>\<open>NULL\<close> when it is an error and not the end of the stream, and the
  \<^verbatim>\<open>errno\<close> of \<^verbatim>\<open>closedir\<close> when it fails. An entry is its \<^verbatim>\<open>d_name\<close> and the node
  that the path made of the directory and the name leads to.
\<close>

datatype fnode = FNode (lstat_result: "errno + stat") (opendir_result: "errno + dirstream")
and dirstream = DirStream (entries: "dirent list") (readdir_error: "errno option") (closedir_error: "errno option")
and dirent = Dirent (d_name: string) (d_node: fnode)

section \<open>The traversal engine\<close>

text \<open>\<^verbatim>\<open>AddListNode\<close> appends the name at the tail of the linked list.\<close>

definition AddListNode :: "dirent list \<Rightarrow> dirent \<Rightarrow> dirent list" where
  "AddListNode head directoryInfo = head @ [directoryInfo]"

text \<open>
  The \<^verbatim>\<open>do ... while\<close> loop of \<^verbatim>\<open>SearchDirectory\<close> over the entries of the stream:
  \<^verbatim>\<open>.\<close> and \<^verbatim>\<open>..\<close> are skipped, every other entry is added to the list.
\<close>

fun readdir_loop :: "dirent list \<Rightarrow> dirent list \<Rightarrow> dirent list" where
  "readdir_loop [] head = head"
| "readdir_loop (directoryInfo # stream) head =
     (if d_name directoryInfo = ''.'' \<or> d_name directoryInfo = ''..''
      then readdir_loop stream head
      else readdir_loop stream (AddListNode head directoryInfo))"

text \<open>
  \<^verbatim>\<open>PrintFileInformation\<close>: the path and a newline; the extended format is still
  to be written in the source and prints nothing.
\<close>

definition PrintFileInformation :: "string \<Rightarrow> stat \<Rightarrow> Args \<Rightarrow> event list" where
  "PrintFileInformation filePath fileInformation args =
     (if printInExtendedFormat args then [] else [Stdout (filePath @ [CHR 0x0A])])"

lemma readdir_loop_filter:
  "readdir_loop stream head =
     head @ filter (\<lambda>d. d_name d \<noteq> ''.'' \<and> d_name d \<noteq> ''..'') stream"
  by (induction stream arbitrary: head) (auto simp: AddListNode_def)

lemma size_list_filter_le: "size_list f (filter P xs) \<le> size_list f xs"
  by (induction xs) auto

lemma filter_measure:
  "2 * size_list f (filter P xs) < Suc (Suc (Suc (2 * size_list f xs)))"
  using size_list_filter_le [of f P xs] by linarith

lemma d_node_measure: "2 * size (d_node n) < Suc (Suc (Suc (2 * size n + k)))"
  by (cases n) simp

text \<open>
  \<^verbatim>\<open>SearchFile\<close>, \<^verbatim>\<open>SearchDirectory\<close> and the \<^verbatim>\<open>while (node != NULL)\<close> loop of the
  latter over the collected list. \<^verbatim>\<open>SearchDirectory\<close> calls \<^verbatim>\<open>readdir\<close> once for
  every entry of the stream and once more for the \<^verbatim>\<open>NULL\<close> that ends the loop.
\<close>

function SearchFile :: "fnode \<Rightarrow> string \<Rightarrow> Args \<Rightarrow> event list"
and SearchDirectory :: "errno + dirstream \<Rightarrow> string \<Rightarrow> Args \<Rightarrow> event list"
and SearchDirectory_loop :: "dirent list \<Rightarrow> string \<Rightarrow> Args \<Rightarrow> event list"
where
  "SearchFile (FNode lstat_res opendir_res) filePath args =
     (case lstat_res of
        Inl e \<Rightarrow> [Lstat filePath, Stderr OpLstat filePath e]
      | Inr fileInfo \<Rightarrow>
          Lstat filePath #
          (if ShouldPrintFileInformation filePath fileInfo args
           then PrintFileInformation filePath fileInfo args else []) @
          (if S_ISDIR (st_mode fileInfo)
           then SearchDirectory opendir_res filePath args else []))"
| "SearchDirectory (Inl e) directoryPath args =
     [Opendir directoryPath False, Stderr OpOpendir directoryPath e]"
| "SearchDirectory (Inr (DirStream stream read_err close_err)) directoryPath args =
     Opendir directoryPath True #
     replicate (Suc (length stream)) (Readdir directoryPath) @
     (case read_err of
        Some e \<Rightarrow> [Stderr OpReaddir directoryPath e]
      | None \<Rightarrow> []) @
     Closedir directoryPath #
     (case close_err of
        Some e \<Rightarrow> [Stderr OpClosedir directoryPath e]
      | None \<Rightarrow> SearchDirectory_loop (readdir_loop stream []) directoryPath args)"
| "SearchDirectory_loop [] directoryPath args = []"
| "SearchDirectory_loop (node # rest) directoryPath args =
     SearchFile (d_node node) (CombinePath directoryPath (d_name node)) args @
     SearchDirectory_loop rest directoryPath args"
  by pat_completeness auto
termination
  apply (relation "measure (\<lambda>x. case x of
      Inl (n, _, _) \<Rightarrow> 2 * size n
    | Inr (Inl (d, _, _)) \<Rightarrow> 2 * size_sum (\<lambda>_. 0) size d
    | Inr (Inr (ds, _, _)) \<Rightarrow> 2 * size_list size ds + 1)")
  apply (simp_all add: readdir_loop_filter filter_measure d_node_measure)
  done

subsection \<open>The walk of the first draft\<close>

text \<open>
  \<^verbatim>\<open>do_file\<close> and \<^verbatim>\<open>do_dir\<close> of \<^verbatim>\<open>myfind/myfind.c\<close>. Its
  \<^verbatim>\<open>PrintFileInformation\<close> prints the path whatever \<^verbatim>\<open>parms\<close> holds, and
  \<^verbatim>\<open>do_dir\<close> calls \<^verbatim>\<open>do_file\<close> for an entry inside the \<^verbatim>\<open>readdir\<close> loop;
  \<^verbatim>\<open>closedir\<close> comes after the loop.
\<close>

definition PrintFileInformation_do_file :: "string \<Rightarrow> stat \<Rightarrow> string list \<Rightarrow> event list" where
  "PrintFileInformation_do_file filePath fileInformation parms = [Stdout (filePath @ [CHR 0x0A])]"

function do_file :: "fnode \<Rightarrow> string \<Rightarrow> string list \<Rightarrow> event list"
and do_dir :: "errno + dirstream \<Rightarrow> string \<Rightarrow> string list \<Rightarrow> event list"
and do_dir_loop :: "dirent list \<Rightarrow> string \<Rightarrow> string list \<Rightarrow> event list"
where
  "do_file (FNode lstat_res opendir_res) file_name parms =
     (case lstat_res of
        Inl e \<Rightarrow> [Lstat file_name, Stderr OpLstat file_name e]
      | Inr fileInfo \<Rightarrow>
          Lstat file_name #
          PrintFileInformation_do_file file_name fileInfo parms @
          (if S_ISDIR (st_mode fileInfo) then do_dir opendir_res file_name parms else []))"
| "do_dir (Inl e) dir_name parms = [Opendir dir_name False, Stderr OpOpendir dir_name e]"
| "do_dir (Inr (DirStream stream read_err close_err)) dir_name parms =
     Opendir dir_name True #
     do_dir_loop stream dir_name parms @
     Readdir dir_name #
     (case read_err of
        Some e \<Rightarrow> [Stderr OpReaddir dir_name e]
      | None \<Rightarrow> []) @
     Closedir dir_name #
     (case close_err of
        Some e \<Rightarrow> [Stderr OpClosedir dir_name e]
      | None \<Rightarrow> [])"
| "do_dir_loop [] dir_name parms = []"
| "do_dir_loop (directoryInfo # stream) dir_name parms =
     Readdir dir_name #
     (if d_name directoryInfo = ''.'' \<or> d_name directoryInfo = ''..'' then []
      else do_file (d_node directoryInfo) (CombinePath dir_name (d_name directoryInfo)) parms) @
     do_dir_loop stream dir_name parms"
  by pat_completeness auto
termination
  apply (relation "measure (\<lambda>x. case x of
      Inl (n, _, _) \<Rightarrow> 2 * size n
    | Inr (Inl (d, _, _)) \<Rightarrow> 2 * size_sum (\<lambda>_. 0) size d
    | Inr (Inr (ds, _, _)) \<Rightarrow> 2 * size_list size ds + 1)")
  apply (simp_all add: d_node_measure)
  done

section \<open>Directory streams held open\<close>

text \<open>
  The number of directory streams a trace holds open: a successful \<^verbatim>\<open>opendir\<close>
  adds one, a \<^verbatim>\<open>closedir\<close> releases one. \<open>open_handles n evs\<close> is the number after
  the trace \<open>evs\<close>, started with \<open>n\<close> open streams, and \<open>max_open_handles n evs\<close> the
  largest number reached on the way.
\<close>

fun handle_step :: "nat \<Rightarrow> event \<Rightarrow> nat" where
  "handle_step n (Opendir p ok) = (if ok then Suc n else n)"
| "handle_step n (Closedir p) = n - 1"
| "handle_step n (Lstat p) = n"
| "handle_step n (Readdir p) = n"
| "handle_step n (Stdout l) = n"
| "handle_step n (Stderr oper p e) = n"

fun open_handles :: "nat \<Rightarrow> event list \<Rightarrow> nat" where
  "open_handles n [] = n"
| "open_handles n (ev # evs) = open_handles (handle_step n ev) evs"

fun max_open_handles :: "nat \<Rightarrow> event list \<Rightarrow> nat" where
  "max_open_handles n [] = n"
| "max_open_handles n (ev # evs) = max n (max_open_handles (handle_step n ev) evs)"

text \<open>
  Every visit of a node, which is what starts with \<^verbatim>\<open>lstat\<close>, begins while no
  stream is open.
\<close>

fun closed_before_visit :: "nat \<Rightarrow> event list \<Rightarrow> bool" where
  "closed_before_visit n [] = True"
| "closed_before_visit n (Lstat p # evs) = (n = 0 \<and> closed_before_visit n evs)"
| "closed_before_visit n (ev # evs) = closed_before_visit (handle_step n ev) evs"

text \<open>
  The discipline of one stream at a time: the trace leaves no stream open, never
  holds more than one, and visits nodes only while none is open.
\<close>

definition one_handle :: "event list \<Rightarrow> bool" where
  "one_handle evs =
     (open_handles 0 evs = 0 \<and> max_open_handles 0 evs \<le> 1 \<and> closed_before_visit 0 evs)"

section \<open>Sample file systems\<close>

text \<open>
  A directory \<^verbatim>\<open>.\<close> whose only entry is the empty directory \<^verbatim>\<open>sub\<close>; mode
  \<^verbatim>\<open>040755\<close> is a directory.
\<close>

definition nested_dirs :: fnode where
  "nested_dirs =
     FNode (Inr \<lparr>st_mode = 0x41ED, st_uid = 0\<rparr>)
       (Inr (DirStream
          [Dirent ''sub''
             (FNode (Inr \<lparr>st_mode = 0x41ED, st_uid = 0\<rparr>) (Inr (DirStream [] None None)))]
          None None))"

text \<open>
  A directory \<^verbatim>\<open>.\<close> with the regular file \<^verbatim>\<open>f\<close> (mode \<^verbatim>\<open>0100644\<close>), whose
  \<^verbatim>\<open>closedir\<close> fails with \<^verbatim>\<open>errno\<close> 9.
\<close>

definition close_fails :: fnode where
  "close_fails =
     FNode (Inr \<lparr>st_mode = 0x41ED, st_uid = 0\<rparr>)
       (Inr (DirStream
          [Dirent ''f'' (FNode (Inr \<lparr>st_mode = 0x81A4, st_uid = 0\<rparr>) (Inl 20))]
          None (Some 9)))"

section \<open>The glob semantics of the specification\<close>

text \<open>
  The name filter as the specification words it, for comparison with the
  evaluator: the whole name must match the pattern, \<^verbatim>\<open>*\<close> matches any run of
  characters including none, \<^verbatim>\<open>?\<close> matches exactly one character and any other
  character matches itself.
\<close>

fun spec_glob_match :: "string \<Rightarrow> string \<Rightarrow> bool" where
  "spec_glob_match [] [] = True"
| "spec_glob_match [] (c # cs) = False"
| "spec_glob_match (p # ps) [] = (p = CHR ''*'' \<and> spec_glob_match ps [])"
| "spec_glob_match (p # ps) (c # cs) =
     (if p = CHR ''*'' then spec_glob_match ps (c # cs) \<or> spec_glob_match (p # ps) cs
      else (p = CHR ''?'' \<or> p = c) \<and> spec_glob_match ps cs)"

section \<open>Properties of the path joiner\<close>

lemma CombinePath_nonempty:
  assumes "path1 \<noteq> []" and "path2 \<noteq> []"
  shows "CombinePath path1 path2 =
           (if last path1 = CHR ''/'' then butlast path1 else path1) @ ''/'' @
           (if hd path2 = CHR ''/'' then tl path2 else path2)"
proof -
  obtain a c where p1: "path1 = a @ [c]"
    using assms(1) by (cases path1 rule: rev_cases) auto
  obtain d b where p2: "path2 = d # b"
    using assms(2) by (cases path2) auto
  show ?thesis
    unfolding p1 p2 by (simp add: CombinePath_def Let_def)
qed

text \<open>
  Claim C8 as stated fails: an operand that carries more than one slash at the
  junction keeps the others, so the result has two or three separators there.
\<close>

theorem CombinePath_doubled_slash:
  "CombinePath ''a//'' ''b'' = ''a//b'' \<and> CombinePath ''a//'' ''//b'' = ''a///b''"
  by (simp add: CombinePath_def Let_def)

text \<open>
  Claim C8, amended. Joining two empty paths gives the empty path, joining with
  one empty operand gives the other operand unchanged, and the three junctions of
  \<^verbatim>\<open>a\<close> and \<^verbatim>\<open>b\<close> all give \<^verbatim>\<open>a/b\<close>. For non-empty operands the result is the first
  operand without one trailing slash, if it ends with one, then one slash, then
  the second operand without one leading slash, if it starts with one; every
  character away from the junction is kept. So the junction carries exactly one
  separator whenever the first operand ends with at most one slash and the second
  starts with at most one.
\<close>

theorem CombinePath_join:
  "CombinePath [] [] = [] \<and> CombinePath [] x = x \<and> CombinePath x [] = x \<and>
   CombinePath ''a/'' ''/b'' = ''a/b'' \<and> CombinePath ''a'' ''b'' = ''a/b'' \<and>
   CombinePath ''a/'' ''b'' = ''a/b'' \<and>
   (path1 \<noteq> [] \<longrightarrow> path2 \<noteq> [] \<longrightarrow>
      CombinePath path1 path2 =
        (if last path1 = CHR ''/'' then butlast path1 else path1) @ ''/'' @
        (if hd path2 = CHR ''/'' then tl path2 else path2)) \<and>
   (a \<noteq> [] \<longrightarrow> last a \<noteq> CHR ''/'' \<longrightarrow> b \<noteq> [] \<longrightarrow> hd b \<noteq> CHR ''/'' \<longrightarrow>
      CombinePath a b = a @ ''/'' @ b \<and> CombinePath (a @ ''/'') b = a @ ''/'' @ b \<and>
      CombinePath a (''/'' @ b) = a @ ''/'' @ b \<and>
      CombinePath (a @ ''/'') (''/'' @ b) = a @ ''/'' @ b)"
proof -
  have empty: "CombinePath [] [] = []" "CombinePath [] x = x" "CombinePath x [] = x"
    by (simp_all add: CombinePath_def Let_def)
  have examples: "CombinePath ''a/'' ''/b'' = ''a/b''" "CombinePath ''a'' ''b'' = ''a/b''"
    "CombinePath ''a/'' ''b'' = ''a/b''"
    by (simp_all add: CombinePath_def Let_def)
  have single: "CombinePath a b = a @ ''/'' @ b \<and> CombinePath (a @ ''/'') b = a @ ''/'' @ b \<and>
      CombinePath a (''/'' @ b) = a @ ''/'' @ b \<and>
      CombinePath (a @ ''/'') (''/'' @ b) = a @ ''/'' @ b"
    if "a \<noteq> []" and "last a \<noteq> CHR ''/''" and "b \<noteq> []" and "hd b \<noteq> CHR ''/''"
    using that by (simp add: CombinePath_nonempty)
  show ?thesis
    using empty examples CombinePath_nonempty [of path1 path2] single by blast
qed

theorem CombinePath_join_witness:
  "''usr//'' \<noteq> [] \<and> ''/lib/'' \<noteq> [] \<and> CombinePath ''usr//'' ''/lib/'' = ''usr//lib/'' \<and>
   ''usr'' \<noteq> [] \<and> last ''usr'' \<noteq> CHR ''/'' \<and> ''lib'' \<noteq> [] \<and> hd ''lib'' \<noteq> CHR ''/'' \<and>
   CombinePath ''usr'' ''lib'' = ''usr/lib'' \<and> CombinePath ''usr/'' ''lib'' = ''usr/lib'' \<and>
   CombinePath ''usr'' ''/lib'' = ''usr/lib'' \<and> CombinePath ''usr/'' ''/lib'' = ''usr/lib''"
  using CombinePath_join [of "[]" "''usr//''" "''/lib/''" "''usr''" "''lib''"]
  by simp

section \<open>Properties of the predicate evaluator\<close>

text \<open>With every filter inactive the evaluator falls through to its last \<^verbatim>\<open>return true\<close>.\<close>

lemma no_filter_matches:
  assumes "\<not> filterByFileType args" and "\<not> filterByUserID args"
    and "\<not> filterForNoUser args" and "\<not> filterForNamePattern args"
    and "\<not> filterForPathPattern args"
  shows "ShouldPrintFileInformation filePath fileInformation args"
  using assms by (simp add: ShouldPrintFileInformation_def)

section \<open>Properties of command-line parsing\<close>

text \<open>One step of the parsing loop, for each kind of argument at index \<open>i\<close>.\<close>

lemma loop_at_end:
  "length argv \<le> i \<Longrightarrow> ParseCommandLineArgs_loop c q argv i a = Inr a"
  by (subst ParseCommandLineArgs_loop.simps) simp

lemma loop_print:
  "i < length argv \<Longrightarrow> argv ! i = ''-print'' \<Longrightarrow>
   ParseCommandLineArgs_loop c q argv i a = ParseCommandLineArgs_loop c q argv (i + 1) a"
  by (subst ParseCommandLineArgs_loop.simps) simp

lemma loop_ls:
  "i < length argv \<Longrightarrow> argv ! i = ''-ls'' \<Longrightarrow>
   ParseCommandLineArgs_loop c q argv i a =
   ParseCommandLineArgs_loop c q argv (i + 1) (a\<lparr>printInExtendedFormat := True\<rparr>)"
  by (subst ParseCommandLineArgs_loop.simps) simp

lemma loop_type:
  "i < length argv \<Longrightarrow> argv ! i = ''-type'' \<Longrightarrow>
   ParseCommandLineArgs_loop c q argv i a =
     (if length argv \<le> i + 1 then Inl TypeWithoutOperand
      else case ParseFileTypes (argv ! (i + 1)) of
        None \<Rightarrow> Inl (InvalidFileTypes (argv ! (i + 1)))
      | Some parsed \<Rightarrow>
          ParseCommandLineArgs_loop c q argv (i + 2)
            (a\<lparr>fileTypes := parsed, filterByFileType := True\<rparr>))"
  by (subst ParseCommandLineArgs_loop.simps) simp

lemma loop_user:
  "i < length argv \<Longrightarrow> argv ! i = ''-user'' \<Longrightarrow>
   ParseCommandLineArgs_loop c q argv i a =
     (if length argv \<le> i + 1 then Inl UserWithoutOperand
      else case c (argv ! (i + 1)) of
        Some uid \<Rightarrow>
          ParseCommandLineArgs_loop c q argv (i + 2) (a\<lparr>userID := uid, filterByUserID := True\<rparr>)
      | None \<Rightarrow>
          (case q (argv ! (i + 1)) of
             Some uid \<Rightarrow>
               ParseCommandLineArgs_loop c q argv (i + 2)
                 (a\<lparr>userID := uid, filterByUserID := True\<rparr>)
           | None \<Rightarrow> Inl (UserNotFound (argv ! (i + 1)))))"
  by (subst ParseCommandLineArgs_loop.simps) simp

lemma loop_nouser:
  "i < length argv \<Longrightarrow> argv ! i = ''-nouser'' \<Longrightarrow>
   ParseCommandLineArgs_loop c q argv i a =
   ParseCommandLineArgs_loop c q argv (i + 1) (a\<lparr>filterForNoUser := True\<rparr>)"
  by (subst ParseCommandLineArgs_loop.simps) simp

lemma loop_name:
  "i < length argv \<Longrightarrow> argv ! i = ''-name'' \<Longrightarrow>
   ParseCommandLineArgs_loop c q argv i a =
     (if length argv \<le> i + 1 then Inl NameWithoutOperand
      else ParseCommandLineArgs_loop c q argv (i + 2)
             (a\<lparr>namePattern := Some (argv ! (i + 1)), filterForNamePattern := True\<rparr>))"
  by (subst ParseCommandLineArgs_loop.simps) simp

lemma loop_path:
  "i < length argv \<Longrightarrow> argv ! i = ''-path'' \<Longrightarrow>
   ParseCommandLineArgs_loop c q argv i a =
     (if length argv \<le> i + 1 then Inl PathWithoutOperand
      else ParseCommandLineArgs_loop c q argv (i + 2)
             (a\<lparr>pathPattern := Some (argv ! (i + 1)), filterForPathPattern := True\<rparr>))"
  by (subst ParseCommandLineArgs_loop.simps) simp

lemma loop_other:
  assumes "i < length argv" and "argv ! i \<notin> actions"
  shows "ParseCommandLineArgs_loop c q argv i a =
     (if i = 1 then ParseCommandLineArgs_loop c q argv (i + 1) (a\<lparr>searchPath := Some (argv ! i)\<rparr>)
      else Inl (UnknownArgument i (argv ! i)))"
proof -
  have ne: "argv ! i \<noteq> ''-print''" "argv ! i \<noteq> ''-ls''" "argv ! i \<noteq> ''-type''"
    "argv ! i \<noteq> ''-user''" "argv ! i \<noteq> ''-nouser''" "argv ! i \<noteq> ''-name''"
    "argv ! i \<noteq> ''-path''"
    using assms(2) unfolding actions_def by blast+
  have "\<not> length argv \<le> i" using assms(1) by simp
  then show ?thesis
    by (subst ParseCommandLineArgs_loop.simps) (simp only: ne if_False)
qed

lemma actions_disj:
  "x = ''-print'' \<or> x = ''-ls'' \<or> x = ''-type'' \<or> x = ''-user'' \<or>
   x = ''-nouser'' \<or> x = ''-name'' \<or> x = ''-path'' \<or> x \<notin> actions"
  unfolding actions_def insert_iff empty_iff by argo

lemma loop_append:
  assumes "ParseCommandLineArgs_loop c q argv i a = Inr a'" and "i \<le> length argv"
  shows "ParseCommandLineArgs_loop c q (argv @ rest) i a =
         ParseCommandLineArgs_loop c q (argv @ rest) (length argv) a'"
  using assms
proof (induction "length argv - i" arbitrary: i a rule: less_induct)
  case less
  show ?case
  proof (cases "length argv \<le> i")
    case True
    with less.prems have "i = length argv" by simp
    with less.prems show ?thesis by (simp add: loop_at_end)
  next
    case False
    then have lt: "i < length argv" and lt': "i < length (argv @ rest)" by simp_all
    have nth: "(argv @ rest) ! i = argv ! i" using lt by (simp add: nth_append)
    have nth': "(argv @ rest) ! (i + 1) = argv ! (i + 1)" if "\<not> length argv \<le> i + 1"
      using that by (simp add: nth_append)
    have IH: "ParseCommandLineArgs_loop c q (argv @ rest) j b =
              ParseCommandLineArgs_loop c q (argv @ rest) (length argv) a'"
      if "ParseCommandLineArgs_loop c q argv j b = Inr a'" and "i < j" and "j \<le> length argv" for j b
      using less.hyps [of j b] that lt by simp
    from actions_disj [of "argv ! i"] show ?thesis
    proof (elim disjE)
      assume x: "argv ! i = ''-print''"
      with less.prems lt have "ParseCommandLineArgs_loop c q argv (i + 1) a = Inr a'"
        by (simp add: loop_print)
      then have "ParseCommandLineArgs_loop c q (argv @ rest) (i + 1) a =
        ParseCommandLineArgs_loop c q (argv @ rest) (length argv) a'"
        using lt by (intro IH) simp_all
      with x lt' nth show ?thesis by (simp add: loop_print)
    next
      assume x: "argv ! i = ''-ls''"
      with less.prems lt have "ParseCommandLineArgs_loop c q argv (i + 1)
          (a\<lparr>printInExtendedFormat := True\<rparr>) = Inr a'"
        by (simp add: loop_ls)
      then have "ParseCommandLineArgs_loop c q (argv @ rest) (i + 1)
          (a\<lparr>printInExtendedFormat := True\<rparr>) =
        ParseCommandLineArgs_loop c q (argv @ rest) (length argv) a'"
        using lt by (intro IH) simp_all
      with x lt' nth show ?thesis by (simp add: loop_ls)
    next
      assume x: "argv ! i = ''-type''"
      from less.prems(1) have *: "ParseCommandLineArgs_loop c q argv i a = Inr a'" .
      from * x lt have op: "\<not> length argv \<le> i + 1"
        by (auto simp: loop_type split: if_splits)
      from * x lt op obtain parsed where p: "ParseFileTypes (argv ! (i + 1)) = Some parsed"
        and r: "ParseCommandLineArgs_loop c q argv (i + 2)
                  (a\<lparr>fileTypes := parsed, filterByFileType := True\<rparr>) = Inr a'"
        by (auto simp: loop_type split: option.splits)
      from r have "ParseCommandLineArgs_loop c q (argv @ rest) (i + 2)
          (a\<lparr>fileTypes := parsed, filterByFileType := True\<rparr>) =
        ParseCommandLineArgs_loop c q (argv @ rest) (length argv) a'"
        using op by (intro IH) simp_all
      with x lt' nth nth' [OF op] op p show ?thesis by (simp add: loop_type)
    next
      assume x: "argv ! i = ''-user''"
      from less.prems(1) have *: "ParseCommandLineArgs_loop c q argv i a = Inr a'" .
      from * x lt have op: "\<not> length argv \<le> i + 1"
        by (auto simp: loop_user split: if_splits)
      from * x lt op obtain uid where p: "c (argv ! (i + 1)) = Some uid \<or>
          (c (argv ! (i + 1)) = None \<and> q (argv ! (i + 1)) = Some uid)"
        and r: "ParseCommandLineArgs_loop c q argv (i + 2)
                  (a\<lparr>userID := uid, filterByUserID := True\<rparr>) = Inr a'"
        by (auto simp: loop_user split: option.splits)
      from r have "ParseCommandLineArgs_loop c q (argv @ rest) (i + 2)
          (a\<lparr>userID := uid, filterByUserID := True\<rparr>) =
        ParseCommandLineArgs_loop c q (argv @ rest) (length argv) a'"
        using op by (intro IH) simp_all
      with x lt' nth nth' [OF op] op p show ?thesis by (auto simp: loop_user)
    next
      assume x: "argv ! i = ''-nouser''"
      with less.prems lt have "ParseCommandLineArgs_loop c q argv (i + 1)
          (a\<lparr>filterForNoUser := True\<rparr>) = Inr a'"
        by (simp add: loop_nouser)
      then have "ParseCommandLineArgs_loop c q (argv @ rest) (i + 1)
          (a\<lparr>filterForNoUser := True\<rparr>) =
        ParseCommandLineArgs_loop c q (argv @ rest) (length argv) a'"
        using lt by (intro IH) simp_all
      with x lt' nth show ?thesis by (simp add: loop_nouser)
    next
      assume x: "argv ! i = ''-name''"
      from less.prems(1) have *: "ParseCommandLineArgs_loop c q argv i a = Inr a'" .
      from * x lt have op: "\<not> length argv \<le> i + 1"
        by (auto simp: loop_name split: if_splits)
      from * x lt op have "ParseCommandLineArgs_loop c q argv (i + 2)
          (a\<lparr>namePattern := Some (argv ! (i + 1)), filterForNamePattern := True\<rparr>) = Inr a'"
        by (simp add: loop_name)
      then have "ParseCommandLineArgs_loop c q (argv @ rest) (i + 2)
          (a\<lparr>namePattern := Some (argv ! (i + 1)), filterForNamePattern := True\<rparr>) =
        ParseCommandLineArgs_loop c q (argv @ rest) (length argv) a'"
        using op by (intro IH) simp_all
      with x lt' nth nth' [OF op] op show ?thesis by (simp add: loop_name)
    next
      assume x: "argv ! i = ''-path''"
      from less.prems(1) have *: "ParseCommandLineArgs_loop c q argv i a = Inr a'" .
      from * x lt have op: "\<not> length argv \<le> i + 1"
        by (auto simp: loop_path split: if_splits)
      from * x lt op have "ParseCommandLineArgs_loop c q argv (i + 2)
          (a\<lparr>pathPattern := Some (argv ! (i + 1)), filterForPathPattern := True\<rparr>) = Inr a'"
        by (simp add: loop_path)
      then have "ParseCommandLineArgs_loop c q (argv @ rest) (i + 2)
          (a\<lparr>pathPattern := Some (argv ! (i + 1)), filterForPathPattern := True\<rparr>) =
        ParseCommandLineArgs_loop c q (argv @ rest) (length argv) a'"
        using op by (intro IH) simp_all
      with x lt' nth nth' [OF op] op show ?thesis by (simp add: loop_path)
    next
      assume x: "argv ! i \<notin> actions"
      from less.prems(1) x lt have one: "i = 1"
        by (auto simp: loop_other split: if_splits)
      from less.prems(1) x lt one have "ParseCommandLineArgs_loop c q argv (i + 1)
          (a\<lparr>searchPath := Some (argv ! i)\<rparr>) = Inr a'"
        by (simp add: loop_other)
      then have "ParseCommandLineArgs_loop c q (argv @ rest) (i + 1)
          (a\<lparr>searchPath := Some (argv ! i)\<rparr>) =
        ParseCommandLineArgs_loop c q (argv @ rest) (length argv) a'"
        using lt by (intro IH) simp_all
      with x lt' nth one show ?thesis by (simp add: loop_other)
    qed
  qed
qed



lemma loop_searchPath:
  assumes "ParseCommandLineArgs_loop c q argv i a = Inr r" and "2 \<le> i"
  shows "searchPath r = searchPath a"
  using assms
proof (induction "length argv - i" arbitrary: i a rule: less_induct)
  case less
  show ?case
  proof (cases "length argv \<le> i")
    case True
    with less.prems show ?thesis by (simp add: loop_at_end)
  next
    case False
    then have lt: "i < length argv" by simp
    have IH: "searchPath r = searchPath b"
      if "ParseCommandLineArgs_loop c q argv j b = Inr r" and "i < j" for j b
      using less.hyps [of j b] that lt less.prems(2) by simp
    note p = less.prems(1)
    from actions_disj [of "argv ! i"] show ?thesis
    proof (elim disjE)
      assume "argv ! i = ''-print''"
      with p lt show ?thesis by (auto simp: loop_print dest!: IH)
    next
      assume "argv ! i = ''-ls''"
      with p lt show ?thesis by (auto simp: loop_ls dest!: IH)
    next
      assume "argv ! i = ''-type''"
      with p lt show ?thesis
        by (auto simp: loop_type split: if_splits option.splits dest!: IH)
    next
      assume "argv ! i = ''-user''"
      with p lt show ?thesis
        by (auto simp: loop_user split: if_splits option.splits dest!: IH)
    next
      assume "argv ! i = ''-nouser''"
      with p lt show ?thesis by (auto simp: loop_nouser dest!: IH)
    next
      assume "argv ! i = ''-name''"
      with p lt show ?thesis by (auto simp: loop_name split: if_splits dest!: IH)
    next
      assume "argv ! i = ''-path''"
      with p lt show ?thesis by (auto simp: loop_path split: if_splits dest!: IH)
    next
      assume "argv ! i \<notin> actions"
      with p lt less.prems(2) show ?thesis by (simp add: loop_other)
    qed
  qed
qed

lemma loop_nonaction_is_operand:
  assumes "ParseCommandLineArgs_loop c q argv i a = Inr r"
    and "i \<le> k" and "k < length argv" and "2 \<le> k" and "argv ! k \<notin> actions"
  shows "argv ! (k - 1) \<in> operand_actions"
proof -
  define operand where "operand \<longleftrightarrow> argv ! (k - 1) \<in> operand_actions"
  have after: "operand" if "argv ! i = x" and "x \<in> operand_actions" and "k = i + 1" for i x
    using that by (simp add: operand_def)
  have operand
    using assms(1,2)
  proof (induction "length argv - i" arbitrary: i a rule: less_induct)
  case less
  have lt: "i < length argv" using less.prems(2) assms(3) by simp
  have IH: operand
    if "ParseCommandLineArgs_loop c q argv j b = Inr r" and "i < j" and "j \<le> k" for j b
    using less.hyps [of j b] that lt by simp
  note p = less.prems(1)
  show ?case
  proof (cases "i = k")
    case True
    with p lt assms(4,5) show ?thesis by (simp add: loop_other)
  next
    case False
    then have ik: "i < k" using less.prems(2) by simp
    from actions_disj [of "argv ! i"] show ?thesis
    proof (elim disjE)
      assume "argv ! i = ''-print''"
      with p lt ik show ?thesis by (auto simp: loop_print intro: IH)
    next
      assume "argv ! i = ''-ls''"
      with p lt ik show ?thesis by (auto simp: loop_ls intro: IH)
    next
      assume x: "argv ! i = ''-type''"
      show ?thesis
      proof (cases "k = i + 1")
        case True
        with x after [of i "''-type''"] show ?thesis by (simp add: operand_actions_def)
      next
        case False
        with p lt ik x show ?thesis
          by (auto simp: loop_type split: if_splits option.splits intro: IH)
      qed
    next
      assume x: "argv ! i = ''-user''"
      show ?thesis
      proof (cases "k = i + 1")
        case True
        with x after [of i "''-user''"] show ?thesis by (simp add: operand_actions_def)
      next
        case False
        with p lt ik x show ?thesis
          by (auto simp: loop_user split: if_splits option.splits intro: IH)
      qed
    next
      assume "argv ! i = ''-nouser''"
      with p lt ik show ?thesis by (auto simp: loop_nouser intro: IH)
    next
      assume x: "argv ! i = ''-name''"
      show ?thesis
      proof (cases "k = i + 1")
        case True
        with x after [of i "''-name''"] show ?thesis by (simp add: operand_actions_def)
      next
        case False
        with p lt ik x show ?thesis
          by (auto simp: loop_name split: if_splits intro: IH)
      qed
    next
      assume x: "argv ! i = ''-path''"
      show ?thesis
      proof (cases "k = i + 1")
        case True
        with x after [of i "''-path''"] show ?thesis by (simp add: operand_actions_def)
      next
        case False
        with p lt ik x show ?thesis
          by (auto simp: loop_path split: if_splits intro: IH)
      qed
    next
      assume "argv ! i \<notin> actions"
      with p lt ik show ?thesis
        by (auto simp: loop_other split: if_splits intro: IH)
    qed
  qed
  qed
  then show ?thesis by (simp add: operand_def)
qed

text \<open>
  Claim C10. An argument the parser does not recognise as an action is the search
  path only at position 1: there it is stored and parsing goes on at position 2,
  and a successful parse returns it as \<open>searchPath\<close>. At any later position,
  after a prefix that parses on its own (so the argument is not the operand of
  an action before it), parsing fails with the unknown-argument error for that
  position. In a vector that parses, such an argument beyond position 1 can only
  stand right after \<^verbatim>\<open>-type\<close>, \<^verbatim>\<open>-user\<close>, \<^verbatim>\<open>-name\<close> or \<^verbatim>\<open>-path\<close>, as its operand.
\<close>

theorem search_path_only_first:
  assumes "x \<notin> actions"
  shows "(ParseCommandLineArgs ConvertToInteger QueryUserID pre args = Inr parsed \<and> 2 \<le> length pre \<longrightarrow>
            ParseCommandLineArgs ConvertToInteger QueryUserID (pre @ x # rest) args =
              Inl (UnknownArgument (length pre) x)) \<and>
         (ParseCommandLineArgs ConvertToInteger QueryUserID argv args = Inr accepted \<and>
          2 \<le> k \<and> k < length argv \<and> argv ! k = x \<longrightarrow>
            argv ! (k - 1) \<in> operand_actions) \<and>
         ParseCommandLineArgs ConvertToInteger QueryUserID (prog # x # rest) args =
           ParseCommandLineArgs_loop ConvertToInteger QueryUserID (prog # x # rest) 2
             (args\<lparr>searchPath := Some x\<rparr>) \<and>
         (ParseCommandLineArgs ConvertToInteger QueryUserID (prog # x # rest) args = Inr parsed' \<longrightarrow>
            searchPath parsed' = Some x)"
proof (intro conjI impI)
  assume pre: "ParseCommandLineArgs ConvertToInteger QueryUserID pre args = Inr parsed \<and> 2 \<le> length pre"
  then have "ParseCommandLineArgs_loop ConvertToInteger QueryUserID (pre @ x # rest) 1 args =
      ParseCommandLineArgs_loop ConvertToInteger QueryUserID (pre @ x # rest) (length pre) parsed"
    unfolding ParseCommandLineArgs_def by (intro loop_append) simp_all
  also have "\<dots> = Inl (UnknownArgument (length pre) x)"
    using pre assms by (simp add: loop_other)
  finally show "ParseCommandLineArgs ConvertToInteger QueryUserID (pre @ x # rest) args =
      Inl (UnknownArgument (length pre) x)"
    unfolding ParseCommandLineArgs_def .
next
  assume ok: "ParseCommandLineArgs ConvertToInteger QueryUserID argv args = Inr accepted \<and>
      2 \<le> k \<and> k < length argv \<and> argv ! k = x"
  then have "ParseCommandLineArgs_loop ConvertToInteger QueryUserID argv 1 args = Inr accepted"
    by (simp add: ParseCommandLineArgs_def)
  from loop_nonaction_is_operand [OF this, of k] ok assms
  show "argv ! (k - 1) \<in> operand_actions" by simp
next
  show first: "ParseCommandLineArgs ConvertToInteger QueryUserID (prog # x # rest) args =
      ParseCommandLineArgs_loop ConvertToInteger QueryUserID (prog # x # rest) 2
        (args\<lparr>searchPath := Some x\<rparr>)"
    using assms unfolding ParseCommandLineArgs_def by (simp add: loop_other numeral_2_eq_2)
  assume "ParseCommandLineArgs ConvertToInteger QueryUserID (prog # x # rest) args = Inr parsed'"
  with first have "ParseCommandLineArgs_loop ConvertToInteger QueryUserID (prog # x # rest) 2
      (args\<lparr>searchPath := Some x\<rparr>) = Inr parsed'"
    by simp
  from loop_searchPath [OF this] show "searchPath parsed' = Some x" by simp
qed

theorem search_path_only_first_witness:
  "''/tmp'' \<notin> actions \<and>
   ParseCommandLineArgs Map.empty Map.empty [''myfind'', ''-print''] calloc_Args = Inr calloc_Args \<and>
   2 \<le> length [''myfind'', ''-print''] \<and>
   ParseCommandLineArgs Map.empty Map.empty [''myfind'', ''-print'', ''/tmp''] calloc_Args =
     Inl (UnknownArgument 2 ''/tmp'') \<and>
   ParseCommandLineArgs Map.empty Map.empty [''myfind'', ''/tmp'', ''-print''] calloc_Args =
     Inr (calloc_Args\<lparr>searchPath := Some ''/tmp''\<rparr>)"
proof -
  have path: "''/tmp'' \<notin> actions"
    by (simp add: actions_def)
  have pre: "ParseCommandLineArgs Map.empty Map.empty [''myfind'', ''-print''] calloc_Args =
      Inr calloc_Args"
    unfolding ParseCommandLineArgs_def by (simp add: loop_print loop_at_end)
  have second: "ParseCommandLineArgs Map.empty Map.empty [''myfind'', ''/tmp'', ''-print''] calloc_Args =
      Inr (calloc_Args\<lparr>searchPath := Some ''/tmp''\<rparr>)"
    using search_path_only_first [OF path, where ConvertToInteger = Map.empty
        and QueryUserID = Map.empty and prog = "''myfind''" and rest = "[''-print'']"
        and args = calloc_Args]
    by (simp add: loop_print loop_at_end)
  from search_path_only_first [OF path, where ConvertToInteger = Map.empty
      and QueryUserID = Map.empty and pre = "[''myfind'', ''-print'']" and rest = "[]"
      and args = calloc_Args and parsed = calloc_Args] pre
  have "ParseCommandLineArgs Map.empty Map.empty [''myfind'', ''-print'', ''/tmp''] calloc_Args =
      Inl (UnknownArgument 2 ''/tmp'')"
    by simp
  with path pre second show ?thesis by simp
qed

text \<open>
  Claim C2 as stated fails: the parser has no check that relates \<^verbatim>\<open>-user\<close> and
  \<^verbatim>\<open>-nouser\<close>. With a \<^verbatim>\<open>ConvertToInteger\<close> that converts \<^verbatim>\<open>0\<close>, the vector
  \<^verbatim>\<open>myfind -user 0 -nouser\<close> parses and both owner filters are active.
\<close>

theorem user_and_nouser_accepted:
  "ParseCommandLineArgs [''0'' \<mapsto> 0] Map.empty [''myfind'', ''-user'', ''0'', ''-nouser''] calloc_Args =
     Inr (calloc_Args\<lparr>userID := 0, filterByUserID := True, filterForNoUser := True\<rparr>)"
  unfolding ParseCommandLineArgs_def
  by (simp add: loop_user loop_nouser loop_at_end)

text \<open>
  Claim C2, amended. The two owner filters are parsed independently. After any
  argument vector that parses, \<^verbatim>\<open>-nouser\<close> is accepted and only sets the no-owner
  flag, and \<^verbatim>\<open>-user\<close> with an operand that \<^verbatim>\<open>ConvertToInteger\<close> or \<^verbatim>\<open>QueryUserID\<close>
  resolves is accepted and only sets the user ID and its flag; the flag of the
  other owner filter is kept, so both can be active in the result.
\<close>

theorem owner_filters_independent:
  assumes "ParseCommandLineArgs ConvertToInteger QueryUserID argv args = Inr parsed"
    and "argv \<noteq> []"
  shows "ParseCommandLineArgs ConvertToInteger QueryUserID (argv @ [''-nouser'']) args =
           Inr (parsed\<lparr>filterForNoUser := True\<rparr>) \<and>
         (ConvertToInteger u = Some uid \<or> ConvertToInteger u = None \<and> QueryUserID u = Some uid \<longrightarrow>
            ParseCommandLineArgs ConvertToInteger QueryUserID (argv @ [''-user'', u]) args =
              Inr (parsed\<lparr>userID := uid, filterByUserID := True\<rparr>))"
proof -
  have start: "1 \<le> length argv"
    using assms(2) by (cases argv) simp_all
  have reach: "ParseCommandLineArgs_loop ConvertToInteger QueryUserID (argv @ rest) 1 args =
      ParseCommandLineArgs_loop ConvertToInteger QueryUserID (argv @ rest) (length argv) parsed" for rest
    using assms(1) start unfolding ParseCommandLineArgs_def by (rule loop_append)
  have nouser: "ParseCommandLineArgs_loop ConvertToInteger QueryUserID (argv @ [''-nouser''])
      (length argv) parsed = Inr (parsed\<lparr>filterForNoUser := True\<rparr>)"
    by (simp add: loop_nouser loop_at_end)
  have user: "ParseCommandLineArgs_loop ConvertToInteger QueryUserID (argv @ [''-user'', u])
      (length argv) parsed = Inr (parsed\<lparr>userID := uid, filterByUserID := True\<rparr>)"
    if "ConvertToInteger u = Some uid \<or> ConvertToInteger u = None \<and> QueryUserID u = Some uid"
    using that by (auto simp: loop_user loop_at_end nth_append)
  show ?thesis
    unfolding ParseCommandLineArgs_def using reach nouser user by simp
qed

theorem owner_filters_independent_witness:
  "ParseCommandLineArgs [''0'' \<mapsto> 0] Map.empty [''myfind'', ''-nouser''] calloc_Args =
     Inr (calloc_Args\<lparr>filterForNoUser := True\<rparr>) \<and>
   [''myfind'', ''-nouser''] \<noteq> [] \<and>
   ParseCommandLineArgs [''0'' \<mapsto> 0] Map.empty [''myfind'', ''-nouser'', ''-user'', ''0''] calloc_Args =
     Inr (calloc_Args\<lparr>filterForNoUser := True, userID := 0, filterByUserID := True\<rparr>)"
proof -
  have pre: "ParseCommandLineArgs [''0'' \<mapsto> 0] Map.empty [''myfind'', ''-nouser''] calloc_Args =
      Inr (calloc_Args\<lparr>filterForNoUser := True\<rparr>)"
    unfolding ParseCommandLineArgs_def by (simp add: loop_nouser loop_at_end)
  from owner_filters_independent [OF pre, of "''0''" 0]
  show ?thesis using pre by simp
qed

section \<open>Where the evaluator and the output are unfinished\<close>

text \<open>
  Claim C9 fails on the code. With no filter active the evaluator returns true for
  every entry, but a matched entry is printed only in the simple format: the
  extended format of \<^verbatim>\<open>PrintFileInformation\<close> is an empty branch still to be
  written. The command line \<^verbatim>\<open>myfind /etc/passwd -ls\<close> parses to a configuration
  without any filter, the entry matches, and the visit of the regular file
  \<^verbatim>\<open>/etc/passwd\<close> is the \<^verbatim>\<open>lstat\<close> alone, nothing is emitted; without \<^verbatim>\<open>-ls\<close> the
  path is printed.
\<close>

theorem no_filter_extended_prints_nothing:
  "ParseCommandLineArgs ConvertToInteger QueryUserID [''myfind'', ''/etc/passwd'', ''-ls''] calloc_Args =
     Inr (calloc_Args\<lparr>searchPath := Some ''/etc/passwd'', printInExtendedFormat := True\<rparr>) \<and>
   ShouldPrintFileInformation ''/etc/passwd'' \<lparr>st_mode = 0x81A4, st_uid = 0\<rparr>
     (calloc_Args\<lparr>searchPath := Some ''/etc/passwd'', printInExtendedFormat := True\<rparr>) \<and>
   SearchFile (FNode (Inr \<lparr>st_mode = 0x81A4, st_uid = 0\<rparr>) (Inl 20)) ''/etc/passwd''
     (calloc_Args\<lparr>searchPath := Some ''/etc/passwd'', printInExtendedFormat := True\<rparr>) =
     [Lstat ''/etc/passwd''] \<and>
   SearchFile (FNode (Inr \<lparr>st_mode = 0x81A4, st_uid = 0\<rparr>) (Inl 20)) ''/etc/passwd''
     (calloc_Args\<lparr>searchPath := Some ''/etc/passwd''\<rparr>) =
     [Lstat ''/etc/passwd'', Stdout ''/etc/passwd\<newline>'']"
proof -
  let ?ls = "calloc_Args\<lparr>searchPath := Some ''/etc/passwd'', printInExtendedFormat := True\<rparr>"
  let ?plain = "calloc_Args\<lparr>searchPath := Some ''/etc/passwd''\<rparr>"
  let ?st = "\<lparr>st_mode = 0x81A4, st_uid = 0\<rparr>"
  have path: "''/etc/passwd'' \<notin> actions"
    by (simp add: actions_def)
  have parse: "ParseCommandLineArgs ConvertToInteger QueryUserID
      [''myfind'', ''/etc/passwd'', ''-ls''] calloc_Args = Inr ?ls"
    unfolding ParseCommandLineArgs_def using path
    by (simp add: loop_other loop_ls loop_at_end)
  have match: "ShouldPrintFileInformation ''/etc/passwd'' ?st ?ls"
    "ShouldPrintFileInformation ''/etc/passwd'' ?st ?plain"
    by (rule no_filter_matches; simp add: calloc_Args_def)+
  have regular: "\<not> S_ISDIR (st_mode ?st)"
    by (simp add: S_ISDIR_def S_IFMT_def)
  have silent: "PrintFileInformation ''/etc/passwd'' ?st ?ls = []"
    and printed: "PrintFileInformation ''/etc/passwd'' ?st ?plain = [Stdout ''/etc/passwd\<newline>'']"
    by (simp_all add: PrintFileInformation_def calloc_Args_def)
  show ?thesis
    using parse match regular silent printed by simp
qed

text \<open>
  Claim C1 fails on the code. The evaluator returns from the branch of the first
  active filter and never looks at the others: with the type filter \<^verbatim>\<open>d\<close> and
  the owner-ID filter 0 both active, a directory owned by user 1000 is printed,
  although the active owner-ID filter is not satisfied.
\<close>

theorem first_active_filter_decides:
  "ShouldPrintFileInformation ''/tmp'' \<lparr>st_mode = 0x41ED, st_uid = 1000\<rparr>
     (calloc_Args\<lparr>fileTypes := Directory, filterByFileType := True,
                   userID := 0, filterByUserID := True\<rparr>) \<and>
   filterByUserID (calloc_Args\<lparr>fileTypes := Directory, filterByFileType := True,
                   userID := 0, filterByUserID := True\<rparr>) \<and>
   st_uid \<lparr>st_mode = 0x41ED, st_uid = 1000\<rparr> \<noteq>
     userID (calloc_Args\<lparr>fileTypes := Directory, filterByFileType := True,
                   userID := 0, filterByUserID := True\<rparr>)"
  by (simp add: ShouldPrintFileInformation_def calloc_Args_def S_ISDIR_def S_ISBLK_def
      S_ISCHR_def S_IFMT_def Directory_def)

text \<open>
  Claim C4 fails on the code. The pattern \<^verbatim>\<open>*.c\<close> matches the name \<^verbatim>\<open>a.c\<close>, yet
  with only the name filter active the evaluator returns false for that entry,
  and for every other entry and pattern: the branch of the name filter is
  \<^verbatim>\<open>return false;\<close> and the pattern is never read.
\<close>

theorem name_filter_never_matches:
  "spec_glob_match ''*.c'' ''a.c'' \<and>
   \<not> ShouldPrintFileInformation ''a.c'' \<lparr>st_mode = 0x81A4, st_uid = 0\<rparr>
       (calloc_Args\<lparr>namePattern := Some ''*.c'', filterForNamePattern := True\<rparr>) \<and>
   \<not> ShouldPrintFileInformation filePath fileInformation
       (calloc_Args\<lparr>namePattern := Some pattern, filterForNamePattern := True\<rparr>)"
  by (simp add: ShouldPrintFileInformation_def calloc_Args_def)

section \<open>Properties of the traversal engine\<close>



lemma SearchDirectory_starts_with_opendir:
  "\<exists>ok evs. SearchDirectory opendir_res directoryPath args = Opendir directoryPath ok # evs"
proof (cases opendir_res)
  case (Inl e)
  then have "SearchDirectory opendir_res directoryPath args =
      Opendir directoryPath False # [Stderr OpOpendir directoryPath e]"
    by simp
  then show ?thesis by blast
next
  case (Inr pDir)
  then show ?thesis by (cases pDir) auto
qed

lemma PrintFileInformation_no_opendir:
  "Opendir p ok \<notin> set (PrintFileInformation filePath fileInformation args)"
  by (simp add: PrintFileInformation_def)

lemma SearchDirectory_loop_concat:
  "SearchDirectory_loop nodes directoryPath args =
     concat (map (\<lambda>d. SearchFile (d_node d) (CombinePath directoryPath (d_name d)) args) nodes)"
  by (induction nodes) simp_all

lemma SearchFile_starts_with_lstat:
  "\<exists>evs. SearchFile node filePath args = Lstat filePath # evs"
proof (cases node)
  case (FNode lstat_res opendir_res)
  then show ?thesis by (cases lstat_res) simp_all
qed

lemma child_visit_in_loop:
  assumes "d \<in> set nodes"
  shows "Lstat (CombinePath directoryPath (d_name d)) \<in>
           set (SearchDirectory_loop nodes directoryPath args)"
proof -
  obtain evs where "SearchFile (d_node d) (CombinePath directoryPath (d_name d)) args =
      Lstat (CombinePath directoryPath (d_name d)) # evs"
    using SearchFile_starts_with_lstat by blast
  then have "Lstat (CombinePath directoryPath (d_name d)) \<in>
      set (SearchFile (d_node d) (CombinePath directoryPath (d_name d)) args)"
    by simp
  with assms show ?thesis
    unfolding SearchDirectory_loop_concat by auto
qed

text \<open>
  Claim C6. The visit of a node whose \<^verbatim>\<open>lstat\<close> succeeds opens the node as a
  directory exactly when \<^verbatim>\<open>st_mode\<close> says it is one, whatever the filters are. A
  node that is not a directory, a symbolic link among them (its \<^verbatim>\<open>lstat\<close> describes
  the link, not its target), is never descended into: its visit is the \<^verbatim>\<open>lstat\<close>
  and the output of a match, whatever \<^verbatim>\<open>opendir\<close> would find there. A directory
  is descended into whether it matches or not: when its stream opens and closes,
  the visit goes on with the visits of all its entries but \<^verbatim>\<open>.\<close> and \<^verbatim>\<open>..\<close>, in
  the order read, each under the joined path.
\<close>

theorem descends_iff_directory:
  "((\<exists>ok. Opendir filePath ok \<in> set (SearchFile (FNode (Inr fileInfo) opendir_res) filePath args)) =
      S_ISDIR (st_mode fileInfo)) \<and>
   ((\<exists>p ok. Opendir p ok \<in> set (SearchFile (FNode (Inr fileInfo) opendir_res) filePath args)) =
      S_ISDIR (st_mode fileInfo)) \<and>
   (S_ISDIR (st_mode fileInfo) \<and> \<not> ShouldPrintFileInformation filePath fileInfo args \<longrightarrow>
      (\<exists>ok. Opendir filePath ok \<in> set (SearchFile (FNode (Inr fileInfo) opendir_res) filePath args))) \<and>
   (S_ISLNK (st_mode fileInfo) \<longrightarrow>
      (\<forall>p ok. Opendir p ok \<notin> set (SearchFile (FNode (Inr fileInfo) opendir_res) filePath args))) \<and>
   (\<not> S_ISDIR (st_mode fileInfo) \<or> S_ISLNK (st_mode fileInfo) \<longrightarrow>
      SearchFile (FNode (Inr fileInfo) opendir_res) filePath args =
        Lstat filePath #
        (if ShouldPrintFileInformation filePath fileInfo args
         then PrintFileInformation filePath fileInfo args else [])) \<and>
   (S_ISDIR (st_mode fileInfo) \<longrightarrow>
      SearchFile (FNode (Inr fileInfo) (Inr (DirStream stream read_err None))) filePath args =
        Lstat filePath #
        (if ShouldPrintFileInformation filePath fileInfo args
         then PrintFileInformation filePath fileInfo args else []) @
        Opendir filePath True # replicate (Suc (length stream)) (Readdir filePath) @
        (case read_err of Some r \<Rightarrow> [Stderr OpReaddir filePath r] | None \<Rightarrow> []) @
        Closedir filePath #
        concat (map (\<lambda>d. SearchFile (d_node d) (CombinePath filePath (d_name d)) args)
                 (filter (\<lambda>d. d_name d \<noteq> ''.'' \<and> d_name d \<noteq> ''..'') stream))) \<and>
   (S_ISDIR (st_mode fileInfo) \<and> d \<in> set stream \<and> d_name d \<noteq> ''.'' \<and> d_name d \<noteq> ''..'' \<longrightarrow>
      Lstat (CombinePath filePath (d_name d)) \<in>
        set (SearchFile (FNode (Inr fileInfo) (Inr (DirStream stream read_err None))) filePath args))"
proof -
  let ?tr = "SearchFile (FNode (Inr fileInfo) opendir_res) filePath args"
  let ?out = "if ShouldPrintFileInformation filePath fileInfo args
         then PrintFileInformation filePath fileInfo args else []"
  let ?children = "filter (\<lambda>d. d_name d \<noteq> ''.'' \<and> d_name d \<noteq> ''..'') stream"
  have link: "\<not> S_ISDIR (st_mode fileInfo)" if "S_ISLNK (st_mode fileInfo)"
    using that by (auto simp: S_ISLNK_def S_ISDIR_def)
  have leaf: "?tr = Lstat filePath # ?out" if "\<not> S_ISDIR (st_mode fileInfo)"
    using that by simp
  have not_dir: "Opendir p ok \<notin> set ?tr" if "\<not> S_ISDIR (st_mode fileInfo)" for p ok
    using that by (simp add: PrintFileInformation_no_opendir)
  have dir: "\<exists>ok. Opendir filePath ok \<in> set ?tr" if "S_ISDIR (st_mode fileInfo)"
  proof -
    obtain ok evs where "SearchDirectory opendir_res filePath args = Opendir filePath ok # evs"
      using SearchDirectory_starts_with_opendir by blast
    with that have "Opendir filePath ok \<in> set ?tr" by simp
    then show ?thesis ..
  qed
  have walk: "SearchFile (FNode (Inr fileInfo) (Inr (DirStream stream read_err None))) filePath args =
        Lstat filePath # ?out @
        Opendir filePath True # replicate (Suc (length stream)) (Readdir filePath) @
        (case read_err of Some r \<Rightarrow> [Stderr OpReaddir filePath r] | None \<Rightarrow> []) @
        Closedir filePath #
        concat (map (\<lambda>d. SearchFile (d_node d) (CombinePath filePath (d_name d)) args) ?children)"
    if "S_ISDIR (st_mode fileInfo)"
    using that by (simp add: readdir_loop_filter SearchDirectory_loop_concat)
  have child: "Lstat (CombinePath filePath (d_name d)) \<in>
        set (SearchFile (FNode (Inr fileInfo) (Inr (DirStream stream read_err None))) filePath args)"
    if "S_ISDIR (st_mode fileInfo)" and "d \<in> set stream" and "d_name d \<noteq> ''.''"
      and "d_name d \<noteq> ''..''"
  proof -
    from that have "d \<in> set (readdir_loop stream [])"
      by (simp add: readdir_loop_filter)
    from child_visit_in_loop [OF this, of filePath args] that(1) show ?thesis
      by simp
  qed
  show ?thesis
    using not_dir dir link leaf walk child by blast
qed

theorem descends_iff_directory_witness:
  "S_ISDIR (st_mode \<lparr>st_mode = 0x41ED, st_uid = 0\<rparr>) \<and>
   \<not> ShouldPrintFileInformation ''.'' \<lparr>st_mode = 0x41ED, st_uid = 0\<rparr>
       (calloc_Args\<lparr>fileTypes := RegularFile, filterByFileType := True\<rparr>) \<and>
   (\<exists>ok. Opendir ''.'' ok \<in> set (SearchFile nested_dirs ''.''
       (calloc_Args\<lparr>fileTypes := RegularFile, filterByFileType := True\<rparr>))) \<and>
   Lstat ''./sub'' \<in> set (SearchFile nested_dirs ''.''
       (calloc_Args\<lparr>fileTypes := RegularFile, filterByFileType := True\<rparr>)) \<and>
   S_ISLNK (st_mode \<lparr>st_mode = 0xA1FF, st_uid = 0\<rparr>) \<and>
   SearchFile (FNode (Inr \<lparr>st_mode = 0xA1FF, st_uid = 0\<rparr>) (opendir_result nested_dirs))
       ''/lnk'' calloc_Args = [Lstat ''/lnk'', Stdout ''/lnk\<newline>'']"
proof -
  let ?dir = "\<lparr>st_mode = 0x41ED, st_uid = 0\<rparr>"
  let ?lnk = "\<lparr>st_mode = 0xA1FF, st_uid = 0\<rparr>"
  let ?sub = "Dirent ''sub'' (FNode (Inr ?dir) (Inr (DirStream [] None None)))"
  let ?files = "calloc_Args\<lparr>fileTypes := RegularFile, filterByFileType := True\<rparr>"
  have link: "S_ISLNK (st_mode ?lnk)"
    by (simp add: S_ISLNK_def S_IFMT_def)
  have dir: "S_ISDIR (st_mode ?dir)"
    by (simp add: S_ISDIR_def S_IFMT_def)
  have no_match: "\<not> ShouldPrintFileInformation ''.'' ?dir ?files"
    by (simp add: ShouldPrintFileInformation_def calloc_Args_def S_ISDIR_def S_ISBLK_def
        S_ISCHR_def S_ISFIFO_def S_ISREG_def S_ISLNK_def S_ISSOCK_def S_IFMT_def
        Directory_def RegularFile_def)
  have match: "ShouldPrintFileInformation ''/lnk'' ?lnk calloc_Args"
    by (simp add: ShouldPrintFileInformation_def calloc_Args_def)
  have tree: "nested_dirs = FNode (Inr ?dir) (Inr (DirStream [?sub] None None))"
    by (simp add: nested_dirs_def)
  have path: "CombinePath ''.'' ''sub'' = ''./sub''"
    by (simp add: CombinePath_def Let_def)
  have entry: "?sub \<in> set [?sub] \<and> d_name ?sub \<noteq> ''.'' \<and> d_name ?sub \<noteq> ''..''"
    by simp
  note at_dir = descends_iff_directory [where filePath = "''.''" and fileInfo = ?dir
      and args = ?files and opendir_res = "Inr (DirStream [?sub] None None)"
      and stream = "[?sub]" and read_err = None and d = ?sub]
  from at_dir [THEN conjunct2, THEN conjunct2, THEN conjunct1] dir no_match
  have opened: "\<exists>ok. Opendir ''.'' ok \<in> set (SearchFile nested_dirs ''.'' ?files)"
    unfolding tree by (rule mp [OF _ conjI])
  from at_dir [THEN conjunct2, THEN conjunct2, THEN conjunct2, THEN conjunct2,
      THEN conjunct2, THEN conjunct2] dir entry
  have "Lstat (CombinePath ''.'' (d_name ?sub)) \<in> set (SearchFile nested_dirs ''.'' ?files)"
    unfolding tree by (rule mp [OF _ conjI])
  then have visited: "Lstat ''./sub'' \<in> set (SearchFile nested_dirs ''.'' ?files)"
    using path by (simp del: SearchFile.simps)
  note at_link = descends_iff_directory [where filePath = "''/lnk''" and fileInfo = ?lnk
      and args = calloc_Args and opendir_res = "opendir_result nested_dirs"]
  from at_link [THEN conjunct2, THEN conjunct2, THEN conjunct2, THEN conjunct2,
      THEN conjunct1] link
  have "SearchFile (FNode (Inr ?lnk) (opendir_result nested_dirs)) ''/lnk'' calloc_Args =
      Lstat ''/lnk'' # (if ShouldPrintFileInformation ''/lnk'' ?lnk calloc_Args
         then PrintFileInformation ''/lnk'' ?lnk calloc_Args else [])"
    by (rule mp [OF _ disjI2])
  with match have "SearchFile (FNode (Inr ?lnk) (opendir_result nested_dirs)) ''/lnk'' calloc_Args =
      [Lstat ''/lnk'', Stdout ''/lnk\<newline>'']"
    by (simp add: PrintFileInformation_def calloc_Args_def del: SearchFile.simps)
  with link dir no_match opened visited show ?thesis
    by (simp del: SearchFile.simps)
qed

text \<open>
  Claim C3 as stated fails: in the sample directory whose \<^verbatim>\<open>closedir\<close> fails, the
  walk ends with the diagnostic of the close and the collected entry \<^verbatim>\<open>f\<close> is
  never visited.
\<close>

theorem close_failure_child_not_visited:
  "SearchFile close_fails ''.'' calloc_Args =
     [Lstat ''.'', Stdout ''.\<newline>'', Opendir ''.'' True, Readdir ''.'', Readdir ''.'',
      Closedir ''.'', Stderr OpClosedir ''.'' 9] \<and>
   Lstat ''./f'' \<notin> set (SearchFile close_fails ''.'' calloc_Args)"
  by (simp add: close_fails_def calloc_Args_def ShouldPrintFileInformation_def
      PrintFileInformation_def S_ISDIR_def S_IFMT_def)

text \<open>
  Claim C3, amended. When \<^verbatim>\<open>closedir\<close> fails after the names have been collected,
  \<^verbatim>\<open>SearchDirectory\<close> reports the diagnostic of the close and returns: its trace
  is the open, the reads, the diagnostic of a failed read if any, the close and
  the diagnostic of the close, and no node is visited.
\<close>



theorem close_failure_skips_children:
  "SearchDirectory (Inr (DirStream stream read_err (Some e))) directoryPath args =
     Opendir directoryPath True # replicate (Suc (length stream)) (Readdir directoryPath) @
     (case read_err of Some r \<Rightarrow> [Stderr OpReaddir directoryPath r] | None \<Rightarrow> []) @
     [Closedir directoryPath, Stderr OpClosedir directoryPath e] \<and>
   (\<forall>p. Lstat p \<notin> set (SearchDirectory (Inr (DirStream stream read_err (Some e))) directoryPath args))"
proof -
  let ?reads = "replicate (Suc (length stream)) (Readdir directoryPath)"
  let ?diag = "case read_err of Some r \<Rightarrow> [Stderr OpReaddir directoryPath r] | None \<Rightarrow> []"
  have trace: "SearchDirectory (Inr (DirStream stream read_err (Some e))) directoryPath args =
      Opendir directoryPath True # ?reads @ ?diag @
      [Closedir directoryPath, Stderr OpClosedir directoryPath e]"
    by simp
  have "Lstat p \<notin> set ?reads" and "Lstat p \<notin> set ?diag" for p
    by (auto split: option.splits)
  then have "Lstat p \<notin> set (Opendir directoryPath True # ?reads @ ?diag @
      [Closedir directoryPath, Stderr OpClosedir directoryPath e])" for p
    by simp
  with trace show ?thesis by simp
qed

subsection \<open>One directory stream at a time\<close>

lemma open_handles_append:
  "open_handles n (xs @ ys) = open_handles (open_handles n xs) ys"
  by (induction xs arbitrary: n) simp_all

lemma max_open_handles_ge: "n \<le> max_open_handles n evs"
  by (cases evs) simp_all

lemma max_open_handles_append:
  "max_open_handles n (xs @ ys) =
     max (max_open_handles n xs) (max_open_handles (open_handles n xs) ys)"
  by (induction xs arbitrary: n) (simp_all add: max.assoc max_absorb2 max_open_handles_ge)

lemma closed_before_visit_append:
  "closed_before_visit n (xs @ ys) =
     (closed_before_visit n xs \<and> closed_before_visit (open_handles n xs) ys)"
proof (induction xs arbitrary: n)
  case Nil
  show ?case by simp
next
  case (Cons ev xs)
  then show ?case by (cases ev) simp_all
qed

lemma readdirs_handles:
  "open_handles n (replicate k (Readdir p)) = n"
  "max_open_handles n (replicate k (Readdir p)) = n"
  "closed_before_visit n (replicate k (Readdir p))"
  by (induction k) simp_all

lemma one_handle_Nil: "one_handle []"
  by (simp add: one_handle_def)

lemma one_handle_append: "one_handle xs \<Longrightarrow> one_handle ys \<Longrightarrow> one_handle (xs @ ys)"
  by (simp add: one_handle_def open_handles_append max_open_handles_append
      closed_before_visit_append)

lemma one_handle_PrintFileInformation: "one_handle (PrintFileInformation p st a)"
  by (simp add: one_handle_def PrintFileInformation_def)

lemma one_handle_visit: "one_handle evs \<Longrightarrow> one_handle (Lstat p # evs)"
  by (simp add: one_handle_def)

lemma one_handle_stream:
  assumes "one_handle evs"
    and "diag = [] \<or> (\<exists>e. diag = [Stderr OpReaddir p e])"
  shows "one_handle (Opendir p True # replicate k (Readdir p) @ diag @ Closedir p # evs)"
  using assms
  by (auto simp: one_handle_def open_handles_append max_open_handles_append
      closed_before_visit_append readdirs_handles)

lemma SearchFile_one_handle_all:
  "one_handle (SearchFile node filePath args)"
  "one_handle (SearchDirectory opendir_res directoryPath args)"
  "one_handle (SearchDirectory_loop nodes directoryPath args)"
proof (induction node filePath args and opendir_res directoryPath args and nodes directoryPath args
    rule: SearchFile_SearchDirectory_SearchDirectory_loop.induct)
  case (1 lstat_res opendir_res filePath args)
  show ?case
  proof (cases lstat_res)
    case (Inl e)
    then show ?thesis by (simp add: one_handle_def)
  next
    case (Inr fileInfo)
    have "one_handle ((if ShouldPrintFileInformation filePath fileInfo args
           then PrintFileInformation filePath fileInfo args else []) @
          (if S_ISDIR (st_mode fileInfo)
           then SearchDirectory opendir_res filePath args else []))"
      using "1.IH" [OF Inr]
      by (intro one_handle_append) (simp_all add: one_handle_Nil one_handle_PrintFileInformation)
    then show ?thesis using Inr by (simp add: one_handle_visit)
  qed
next
  case (2 e directoryPath args)
  show ?case by (simp add: one_handle_def)
next
  case (3 stream read_err close_err directoryPath args)
  have rest: "one_handle (case close_err of
        Some e \<Rightarrow> [Stderr OpClosedir directoryPath e]
      | None \<Rightarrow> SearchDirectory_loop (readdir_loop stream []) directoryPath args)"
  proof (cases close_err)
    case None
    with "3.IH" show ?thesis by simp
  next
    case (Some e)
    then show ?thesis by (simp add: one_handle_def)
  qed
  have diag: "(case read_err of Some e \<Rightarrow> [Stderr OpReaddir directoryPath e] | None \<Rightarrow> []) = [] \<or>
      (\<exists>e. (case read_err of Some e \<Rightarrow> [Stderr OpReaddir directoryPath e] | None \<Rightarrow> []) =
         [Stderr OpReaddir directoryPath e])"
    by (cases read_err) simp_all
  from one_handle_stream [OF rest diag, of "Suc (length stream)"] show ?case by simp
next
  case (4 directoryPath args)
  show ?case by (simp add: one_handle_Nil)
next
  case (5 node rest directoryPath args)
  then show ?case by (simp add: one_handle_append)
qed

text \<open>
  Claim C5 holds for \<^verbatim>\<open>SearchFile\<close> and \<^verbatim>\<open>SearchDirectory\<close>, on every file system
  and for all arguments: a stream is opened, read to its end and closed before
  any child is visited, so no more than one is ever open. The walk of the first
  draft breaks it: \<^verbatim>\<open>do_dir\<close> visits an entry inside its \<^verbatim>\<open>readdir\<close> loop, and on
  the directory \<^verbatim>\<open>.\<close> with the subdirectory \<^verbatim>\<open>sub\<close> the stream of \<^verbatim>\<open>.\<close> is
  still open when \<^verbatim>\<open>./sub\<close> is visited and opened, two streams at once.
\<close>

theorem first_draft_keeps_stream_open:
  "do_file nested_dirs ''.'' [''myfind''] =
     [Lstat ''.'', Stdout ''.\<newline>'', Opendir ''.'' True, Readdir ''.'',
      Lstat ''./sub'', Stdout ''./sub\<newline>'', Opendir ''./sub'' True, Readdir ''./sub'',
      Closedir ''./sub'', Readdir ''.'', Closedir ''.''] \<and>
   max_open_handles 0 (do_file nested_dirs ''.'' [''myfind'']) = 2 \<and>
   \<not> closed_before_visit 0 (do_file nested_dirs ''.'' [''myfind'']) \<and>
   one_handle (SearchFile node filePath args)"
proof -
  have draft: "do_file nested_dirs ''.'' [''myfind''] =
     [Lstat ''.'', Stdout ''.\<newline>'', Opendir ''.'' True, Readdir ''.'',
      Lstat ''./sub'', Stdout ''./sub\<newline>'', Opendir ''./sub'' True, Readdir ''./sub'',
      Closedir ''./sub'', Readdir ''.'', Closedir ''.'']"
    by (simp add: nested_dirs_def S_ISDIR_def S_IFMT_def CombinePath_def
        PrintFileInformation_do_file_def)
  have "max_open_handles 0 (do_file nested_dirs ''.'' [''myfind'']) = 2"
    and "\<not> closed_before_visit 0 (do_file nested_dirs ''.'' [''myfind''])"
    unfolding draft by simp_all
  with draft SearchFile_one_handle_all(1) [of node filePath args] show ?thesis
    by simp
qed

end
